theory Spec2Isabelle
  imports Complex_Main
begin

section \<open>Strings and Python values\<close>

text \<open>
  Strings are \<^typ>\<open>string\<close>, lists of characters. What the libraries do with a text
  (upper-casing, trimming, decoding JSON, rendering and reading XML, sending it) is never
  fixed here: each library call is a parameter of the model, see the collaborators below.
\<close>

definition NL :: char where
  "NL = CHR 0x0A"

text \<open>\<open>sep.join(xs)\<close>.\<close>

fun join :: "string \<Rightarrow> string list \<Rightarrow> string" where
  "join sep [] = []"
| "join sep [x] = x"
| "join sep (x # y # ys) = x @ sep @ join sep (y # ys)"

text \<open>The decimal rendering of an integer in an f-string, \<open>f"{n}"\<close>.\<close>

definition digit :: "nat \<Rightarrow> char" where
  "digit d = char_of (48 + d)"

fun nat_digits :: "nat \<Rightarrow> string" where
  "nat_digits n = (if n < 10 then [digit n] else nat_digits (n div 10) @ [digit (n mod 10)])"

declare nat_digits.simps [simp del]

definition str_int :: "int \<Rightarrow> string" where
  "str_int i = (if i < 0 then CHR ''-'' # nat_digits (nat (- i)) else nat_digits (nat i))"

text \<open>
  The values \<open>json.loads\<close> returns, with Python's truth value of each (\<open>not v\<close> is
  \<open>\<not> py_truthy v\<close>). \<open>PNone\<close> is Python's \<open>None\<close>, which is also what the JSON text
  \<open>null\<close> decodes to. Floats are modelled by their real value.
\<close>

datatype pyval =
    PNone
  | PBool bool
  | PInt int
  | PFloat real
  | PStr string
  | PList "pyval list"
  | PDict "(string \<times> pyval) list"

fun py_truthy :: "pyval \<Rightarrow> bool" where
  "py_truthy PNone = False"
| "py_truthy (PBool b) = b"
| "py_truthy (PInt i) = (i \<noteq> 0)"
| "py_truthy (PFloat x) = (x \<noteq> 0)"
| "py_truthy (PStr s) = (s \<noteq> [])"
| "py_truthy (PList xs) = (xs \<noteq> [])"
| "py_truthy (PDict kvs) = (kvs \<noteq> [])"

text \<open>
  A Python \<open>dict\<close>: keys in insertion order, each key once; storing under a key that is
  present replaces its value in place.
\<close>

type_synonym ('k, 'v) pydict = "('k \<times> 'v) list"

fun dict_setitem :: "('k, 'v) pydict \<Rightarrow> 'k \<Rightarrow> 'v \<Rightarrow> ('k, 'v) pydict" where
  "dict_setitem [] k v = [(k, v)]"
| "dict_setitem ((k', v') # d) k v =
     (if k' = k then (k', v) # d else (k', v') # dict_setitem d k v)"


text \<open>
  The slice \<open>xs[:m]\<close> for a Python integer \<open>m\<close>: a negative bound counts from the end.
\<close>

definition slice_to :: "'a list \<Rightarrow> int \<Rightarrow> 'a list" where
  "slice_to xs m =
     (if m < 0 then take (nat (int (length xs) + m)) xs else take (nat m) xs)"

section \<open>Models (raccoon.py, lines 26-73)\<close>

record header =
  h_name :: string
  h_value :: string

record parameter =
  p_name :: string
  p_value :: string

record request =
  req_method :: string
  req_path :: string
  req_headers :: "header list"
  req_url_params :: "parameter list"
  req_body :: string

record response =
  status_code :: int
  resp_headers :: "header list"
  resp_body :: string

section \<open>The collaborators outside the file\<close>

text \<open>
  The libraries the file calls are parameters of the model, one field each. \<open>'w\<close> is the
  state of the world outside the process (the target application and the generator); a
  call that talks to it returns the world after the call. A call that may raise returns
  the exception.
  \<^item> \<open>to_upper\<close>, \<open>strip_whitespace\<close>: what pydantic's \<open>StringConstraints(to_upper=True)\<close>
    and \<open>StringConstraints(strip_whitespace=True)\<close> make of a text.
  \<^item> \<open>json_loads\<close>: \<open>json.loads\<close>. It returns a value, raises \<open>json.JSONDecodeError\<close>, or
    raises another exception (\<open>ValueError\<close> on an integer of more than 4300 digits,
    \<open>RecursionError\<close> on deep nesting).
  \<^item> \<open>client_send\<close>: \<open>client.send(client.build_request(...))\<close> on the keyword arguments.
  \<^item> \<open>to_pretty_xml\<close>, \<open>response_to_pretty_xml\<close>: \<open>to_pretty_xml()\<close> of the two models.
  \<^item> \<open>generate\<close>: running the forked chat pipeline on a prompt; the text of \<open>chat.last\<close>.
  \<^item> \<open>try_parse_many\<close>: \<open>try_parse_many(Request)\<close> on a text, the requests it finds, in
    order.
\<close>

datatype py_exception =
    TransportError string
  | GenerationError string
  | ValueError string
  | RecursionError string

datatype loads_result =
    Loaded pyval
  | JSONDecodeError
  | Raised py_exception

record build_request_kwargs =
  kw_method :: string
  kw_url :: string
  kw_headers :: "(string, string) pydict"
  kw_content :: "string option"
  kw_json :: pyval

record httpx_response =
  hr_status_code :: int
  hr_headers :: "(string \<times> string) list"
  hr_text :: string

record 'w env =
  to_upper :: "string \<Rightarrow> string"
  strip_whitespace :: "string \<Rightarrow> string"
  json_loads :: "string \<Rightarrow> loads_result"
  client_send :: "'w \<Rightarrow> build_request_kwargs \<Rightarrow> (py_exception + httpx_response) \<times> 'w"
  to_pretty_xml :: "request \<Rightarrow> string"
  response_to_pretty_xml :: "response \<Rightarrow> string"
  generate :: "'w \<Rightarrow> string \<Rightarrow> (py_exception + string) \<times> 'w"
  try_parse_many :: "string \<Rightarrow> request list"

text \<open>
  The constructors validate their fields as the annotations say: \<open>value: str_strip\<close>,
  \<open>method: str_upper\<close>, \<open>body: str_strip\<close>.
\<close>

definition Header :: "'w env \<Rightarrow> string \<Rightarrow> string \<Rightarrow> header" where
  "Header e n v = \<lparr>h_name = n, h_value = strip_whitespace e v\<rparr>"

definition Parameter :: "'w env \<Rightarrow> string \<Rightarrow> string \<Rightarrow> parameter" where
  "Parameter e n v = \<lparr>p_name = n, p_value = strip_whitespace e v\<rparr>"

definition Request ::
  "'w env \<Rightarrow> string \<Rightarrow> string \<Rightarrow> header list \<Rightarrow> parameter list \<Rightarrow> string \<Rightarrow> request" where
  "Request e m p hs ps b =
     \<lparr>req_method = to_upper e m, req_path = p, req_headers = hs, req_url_params = ps,
      req_body = strip_whitespace e b\<rparr>"

definition Response :: "'w env \<Rightarrow> int \<Rightarrow> header list \<Rightarrow> string \<Rightarrow> response" where
  "Response e c hs b = \<lparr>status_code = c, resp_headers = hs, resp_body = strip_whitespace e b\<rparr>"

definition example_request :: "'w env \<Rightarrow> request" where
  "example_request e =
     Request e ''GET'' ''/$path'' [Header e ''X-Header'' ''my-value'']
       [Parameter e ''name'' ''test-param''] ''$body''"

definition xml_example :: "'w env \<Rightarrow> string" where
  "xml_example e = to_pretty_xml e (example_request e)"

section \<open>send_request (lines 107-126)\<close>

definition headers_dict :: "header list \<Rightarrow> (string, string) pydict" where
  "headers_dict hs = foldl (\<lambda>d h. dict_setitem d (h_name h) (h_value h)) [] hs"

text \<open>The keyword arguments of lines 113-119, for a request and the value of \<open>json_body\<close>.\<close>

definition call_kwargs :: "request \<Rightarrow> pyval \<Rightarrow> build_request_kwargs" where
  "call_kwargs r json_body =
     \<lparr>kw_method = req_method r,
      kw_url = req_path r,
      kw_headers = headers_dict (req_headers r),
      kw_content = (if \<not> py_truthy json_body then Some (req_body r) else None),
      kw_json = json_body\<rparr>"

text \<open>
  Lines 108-119: \<open>json_body\<close> is the decoded body, or \<open>None\<close> when decoding raises
  \<open>JSONDecodeError\<close>; any other exception of \<open>json.loads\<close> is not caught and leaves
  \<open>send_request\<close> before the call is built.
\<close>

definition build_request_args :: "'w env \<Rightarrow> request \<Rightarrow> py_exception + build_request_kwargs" where
  "build_request_args e r =
     (case json_loads e (req_body r) of
        Loaded v \<Rightarrow> Inr (call_kwargs r v)
      | JSONDecodeError \<Rightarrow> Inr (call_kwargs r PNone)
      | Raised x \<Rightarrow> Inl x)"

definition send_request :: "'w env \<Rightarrow> 'w \<Rightarrow> request \<Rightarrow> (py_exception + response) \<times> 'w" where
  "send_request e w r =
     (case build_request_args e r of
        Inl x \<Rightarrow> (Inl x, w)
      | Inr kw \<Rightarrow>
          (case client_send e w kw of
             (Inl x, w') \<Rightarrow> (Inl x, w')
           | (Inr hr, w') \<Rightarrow>
               (Inr (Response e (hr_status_code hr)
                       (map (\<lambda>(k, v). Header e k v) (hr_headers hr)) (hr_text hr)), w')))"

section \<open>State (lines 76-104)\<close>

record state =
  max_actions :: int
  goals :: "string list"
  next_actions :: "request list"
  traffic :: "(request \<times> response) list"

text \<open>The records the three \<open>logger\<close> calls write, with their arguments.\<close>

datatype event =
    Iteration int int
  | Running nat
  | Success string string int

text \<open>The process: the \<open>State\<close> object, the world, and the log written so far.\<close>

record 'w sys =
  st :: state
  world :: 'w
  logged :: "event list"

definition Request_run :: "'w env \<Rightarrow> request \<Rightarrow> 'w sys \<Rightarrow> (py_exception + string) \<times> 'w sys" where
  "Request_run e r s =
     (case send_request e (world s) r of
        (Inl x, w') \<Rightarrow> (Inl x, s\<lparr>world := w'\<rparr>)
      | (Inr res, w') \<Rightarrow>
          (Inr (response_to_pretty_xml e res),
           s\<lparr>world := w',
             logged := logged s @ [Success (req_method r) (req_path r) (status_code res)],
             st := (st s)\<lparr>traffic := traffic (st s) @ [(r, res)]\<rparr>\<rparr>))"

text \<open>The \<open>for action in self.next_actions\<close> loop of \<open>step\<close>.\<close>

fun run_actions :: "'w env \<Rightarrow> request list \<Rightarrow> 'w sys \<Rightarrow> (py_exception + unit) \<times> 'w sys" where
  "run_actions e [] s = (Inr (), s)"
| "run_actions e (a # as) s =
     (case Request_run e a s of
        (Inl x, s') \<Rightarrow> (Inl x, s')
      | (Inr _, s') \<Rightarrow> run_actions e as s')"

definition step :: "'w env \<Rightarrow> 'w sys \<Rightarrow> (py_exception + unit) \<times> 'w sys" where
  "step e s =
     (let s1 = s\<lparr>logged := logged s @ [Running (length (next_actions (st s)))]\<rparr>
      in case run_actions e (next_actions (st s1)) s1 of
           (Inl x, s') \<Rightarrow> (Inl x, s')
         | (Inr _, s') \<Rightarrow> (Inr (), s'\<lparr>st := (st s')\<lparr>next_actions := []\<rparr>\<rparr>))"

definition traffic_line :: "request \<times> response \<Rightarrow> string" where
  "traffic_line p =
     req_method (fst p) @ '' '' @ req_path (fst p) @ '' -> '' @ str_int (status_code (snd p))"

definition get_prompt :: "'w env \<Rightarrow> state \<Rightarrow> string" where
  "get_prompt e s =
     (let traffic_str = join [NL] (map traffic_line (traffic s))
      in [NL] @ ''# Traffic'' @ [NL]
         @ (if traffic_str \<noteq> [] then traffic_str else ''No traffic yet'') @ [NL]
         @ [NL] @ ''# Goal'' @ [NL]
         @ (if goals s \<noteq> [] then goals s ! (length (goals s) - 1) else ''Explore the app'') @ [NL]
         @ [NL] @ ''# Actions'' @ [NL]
         @ ''Use the format below to send new HTTP requests.'' @ [NL]
         @ [NL] @ xml_example e @ [NL])"

section \<open>The agent loop (lines 151-165)\<close>

definition parse :: "'w env \<Rightarrow> int \<Rightarrow> string \<Rightarrow> state \<Rightarrow> state" where
  "parse e m t s =
     (let parsed = try_parse_many e t;
          actions = (if parsed \<noteq> [] then parsed else [])
      in s\<lparr>next_actions := slice_to actions m\<rparr>)"

text \<open>One pass through the body of \<open>for i in range(iterations)\<close>.\<close>

definition loop_body :: "'w env \<Rightarrow> int \<Rightarrow> int \<Rightarrow> nat \<Rightarrow> 'w sys \<Rightarrow> (py_exception + unit) \<times> 'w sys" where
  "loop_body e iterations m i s =
     (let s1 = s\<lparr>logged := logged s @ [Iteration (int i + 1) iterations]\<rparr>
      in case generate e (world s1) (get_prompt e (st s1)) of
           (Inl x, w') \<Rightarrow> (Inl x, s1\<lparr>world := w'\<rparr>)
         | (Inr t, w') \<Rightarrow> step e (s1\<lparr>world := w', st := parse e m t (st s1)\<rparr>))"

fun rounds :: "'w env \<Rightarrow> int \<Rightarrow> int \<Rightarrow> nat list \<Rightarrow> 'w sys \<Rightarrow> (py_exception + unit) \<times> 'w sys" where
  "rounds e iterations m [] s = (Inr (), s)"
| "rounds e iterations m (i # is) s =
     (case loop_body e iterations m i s of
        (Inl x, s') \<Rightarrow> (Inl x, s')
      | (Inr _, s') \<Rightarrow> rounds e iterations m is s')"

definition agent_loop :: "'w env \<Rightarrow> int \<Rightarrow> int \<Rightarrow> 'w sys \<Rightarrow> (py_exception + unit) \<times> 'w sys" where
  "agent_loop e iterations m s = rounds e iterations m [0 ..< nat iterations] s"

text \<open>\<open>State(client=client, max_actions=max_actions, base_chat=chat, goals=[goal])\<close>.\<close>

definition initial :: "string \<Rightarrow> int \<Rightarrow> 'w \<Rightarrow> 'w sys" where
  "initial goal m w =
     \<lparr>st = \<lparr>max_actions = m, goals = [goal], next_actions = [], traffic = []\<rparr>,
      world = w, logged = []\<rparr>"

section \<open>Notions the properties are stated with\<close>


text \<open>
  The traffic summary and the active goal as the specification words them: a placeholder
  when there is no traffic, the last goal of the stack or a default.
\<close>

definition traffic_summary_spec :: "(request \<times> response) list \<Rightarrow> string" where
  "traffic_summary_spec tr =
     (if tr = [] then ''No traffic yet'' else join [NL] (map traffic_line tr))"

definition active_goal_spec :: "string list \<Rightarrow> string" where
  "active_goal_spec gs = (if gs = [] then ''Explore the app'' else last gs)"

text \<open>Reading the log: the rounds started, the queue lengths, the actions executed.\<close>

fun is_iteration :: "event \<Rightarrow> bool" where
  "is_iteration (Iteration i n) = True"
| "is_iteration ev = False"

fun is_success :: "event \<Rightarrow> bool" where
  "is_success (Success m p c) = True"
| "is_success ev = False"

fun running_counts :: "event list \<Rightarrow> nat list" where
  "running_counts [] = []"
| "running_counts (Running k # evs) = k # running_counts evs"
| "running_counts (ev # evs) = running_counts evs"

text \<open>The number of actions executed in each round: the successes after each round's start.\<close>

fun per_round :: "event list \<Rightarrow> nat list" where
  "per_round [] = []"
| "per_round (Iteration i n # evs) =
     length (filter is_success (takeWhile (\<lambda>ev. \<not> is_iteration ev) evs)) # per_round evs"
| "per_round (ev # evs) = per_round evs"

definition success_event :: "request \<times> response \<Rightarrow> event" where
  "success_event p = Success (req_method (fst p)) (req_path (fst p)) (status_code (snd p))"

text \<open>What a run added to the traffic and to the log.\<close>

definition new_traffic :: "'w sys \<Rightarrow> 'w sys \<Rightarrow> (request \<times> response) list" where
  "new_traffic s s' = drop (length (traffic (st s))) (traffic (st s'))"

definition new_events :: "'w sys \<Rightarrow> 'w sys \<Rightarrow> event list" where
  "new_events s s' = drop (length (logged s)) (logged s')"




section \<open>Concrete environments\<close>

text \<open>
  Small environments to evaluate the definitions on. The validators are the ASCII ones
  (the letters a to z, the six ASCII whitespace characters); the decoder knows four JSON
  texts and raises \<open>ValueError\<close> on the integer of 4301 nines; the target answers 200 to
  every request except those to one path, where the connection fails; the generator's
  completion holds a fixed list of requests. The world counts the calls made.
\<close>

definition is_space :: "char \<Rightarrow> bool" where
  "is_space c = (c \<in> {CHR 0x09, CHR 0x0A, CHR 0x0B, CHR 0x0C, CHR 0x0D, CHR 0x20})"

definition ascii_strip :: "string \<Rightarrow> string" where
  "ascii_strip s = rev (dropWhile is_space (rev (dropWhile is_space s)))"

definition is_lower :: "char \<Rightarrow> bool" where
  "is_lower c = (97 \<le> (of_char c :: nat) \<and> (of_char c :: nat) \<le> 122)"

definition upper_char :: "char \<Rightarrow> char" where
  "upper_char c = (if is_lower c then char_of ((of_char c :: nat) - 32) else c)"

definition ascii_upper :: "string \<Rightarrow> string" where
  "ascii_upper s = map upper_char s"

definition fixture_json_loads :: "string \<Rightarrow> loads_result" where
  "fixture_json_loads s =
     (if length s = 4301 \<and> set s = {CHR ''9''}
        then Raised (ValueError ''Exceeds the limit (4300 digits) for integer string conversion'')
      else if s = ''{}'' then Loaded (PDict [])
      else if s = ''0'' then Loaded (PInt 0)
      else if s = ''null'' then Loaded PNone
      else if s = ''[1]'' then Loaded (PList [PInt 1])
      else JSONDecodeError)"

definition fixture_send ::
  "string option \<Rightarrow> nat \<Rightarrow> build_request_kwargs \<Rightarrow> (py_exception + httpx_response) \<times> nat" where
  "fixture_send down w kw =
     (if Some (kw_url kw) = down then (Inl (TransportError ''ConnectError''), Suc w)
      else (Inr \<lparr>hr_status_code = 200, hr_headers = [], hr_text = ''ok''\<rparr>, Suc w))"

definition fixture_env :: "request list \<Rightarrow> string option \<Rightarrow> nat env" where
  "fixture_env requests down =
     \<lparr>to_upper = ascii_upper,
      strip_whitespace = ascii_strip,
      json_loads = fixture_json_loads,
      client_send = fixture_send down,
      to_pretty_xml = (\<lambda>r. ''<request/>''),
      response_to_pretty_xml = (\<lambda>r. ''<response/>''),
      generate = (\<lambda>w p. (Inr ''completion'', Suc w)),
      try_parse_many = (\<lambda>t. requests)\<rparr>"

definition simple_request :: "string \<Rightarrow> string \<Rightarrow> request" where
  "simple_request m p =
     \<lparr>req_method = m, req_path = p, req_headers = [], req_url_params = [], req_body = []\<rparr>"

definition three_requests :: "request list" where
  "three_requests =
     [simple_request ''GET'' ''/a'', simple_request ''GET'' ''/b'', simple_request ''POST'' ''/c'']"


definition ok_response :: response where
  "ok_response = \<lparr>status_code = 200, resp_headers = [], resp_body = ''ok''\<rparr>"

definition queued_state :: "nat sys" where
  "queued_state =
     \<lparr>st = \<lparr>max_actions = 3, goals = [''g''],
            next_actions = [simple_request ''GET'' ''/a'', simple_request ''GET'' ''/b'',
                            simple_request ''POST'' ''/c''],
            traffic = [(simple_request ''GET'' ''/'', ok_response)]\<rparr>,
      world = 5, logged = []\<rparr>"

definition traffic_state :: state where
  "traffic_state =
     \<lparr>max_actions = 2, goals = [''Explore all endpoints in the app.'', ''Find the login form''],
      next_actions = [],
      traffic = [(simple_request ''GET'' ''/a'', ok_response),
                 (simple_request ''POST'' ''/c'', ok_response\<lparr>status_code := 404\<rparr>)]\<rparr>"

section \<open>Values in the concrete environments\<close>

lemma upper_GET: "ascii_upper ''GET'' = ''GET''"
  by code_simp

lemma strip_ok: "ascii_strip ''ok'' = ''ok''"
  by (simp add: ascii_strip_def is_space_def)

lemma parsed_three_requests:
  "try_parse_many (fixture_env three_requests d) t =
     [simple_request ''GET'' ''/a'', simple_request ''GET'' ''/b'', simple_request ''POST'' ''/c'']"
  by (simp add: fixture_env_def three_requests_def)

section \<open>Dictionaries and the header mapping\<close>











section \<open>The body of the call\<close>

text \<open>
  C2. What send_request passes as content and as json: a body that does not decode is
  passed as content, with no json; a body that decodes to a value Python holds true is
  passed as json, with no content; a body that decodes to a value Python holds false
  (0, false, null, "", [], {}) is passed as content, and the decoded value as json. When
  json.loads raises another exception than JSONDecodeError, no call is built and the
  exception leaves send_request with the world untouched.
\<close>

theorem send_request_body_dispatch:
  "(json_loads e (req_body r) = JSONDecodeError \<longrightarrow>
      (\<exists>kw. build_request_args e r = Inr kw
         \<and> kw_content kw = Some (req_body r) \<and> kw_json kw = PNone))
   \<and> (\<forall>v. json_loads e (req_body r) = Loaded v \<and> py_truthy v \<longrightarrow>
      (\<exists>kw. build_request_args e r = Inr kw
         \<and> kw_content kw = None \<and> kw_json kw = v))
   \<and> (\<forall>v. json_loads e (req_body r) = Loaded v \<and> \<not> py_truthy v \<longrightarrow>
      (\<exists>kw. build_request_args e r = Inr kw
         \<and> kw_content kw = Some (req_body r) \<and> kw_json kw = v))
   \<and> (\<forall>x. json_loads e (req_body r) = Raised x \<longrightarrow>
      build_request_args e r = Inl x \<and> send_request e w r = (Inl x, w))"
  by (simp add: build_request_args_def call_kwargs_def send_request_def)

theorem send_request_body_dispatch_witness:
  "build_request_args (fixture_env [] None)
      (simple_request ''POST'' ''/x'' \<lparr>req_body := ''{}''\<rparr>) =
     Inr \<lparr>kw_method = ''POST'', kw_url = ''/x'', kw_headers = [],
          kw_content = Some ''{}'', kw_json = PDict []\<rparr>
   \<and> build_request_args (fixture_env [] None)
      (simple_request ''POST'' ''/x'' \<lparr>req_body := ''[1]''\<rparr>) =
     Inr \<lparr>kw_method = ''POST'', kw_url = ''/x'', kw_headers = [],
          kw_content = None, kw_json = PList [PInt 1]\<rparr>
   \<and> build_request_args (fixture_env [] None)
      (simple_request ''POST'' ''/x'' \<lparr>req_body := ''hello''\<rparr>) =
     Inr \<lparr>kw_method = ''POST'', kw_url = ''/x'', kw_headers = [],
          kw_content = Some ''hello'', kw_json = PNone\<rparr>
   \<and> send_request (fixture_env [] None) 0
      (simple_request ''POST'' ''/x'' \<lparr>req_body := replicate 4301 (CHR ''9'')\<rparr>) =
     (Inl (ValueError ''Exceeds the limit (4300 digits) for integer string conversion''), 0)"
proof -
  have l: "json_loads (fixture_env [] None) ''{}'' = Loaded (PDict [])"
    "json_loads (fixture_env [] None) ''[1]'' = Loaded (PList [PInt 1])"
    "json_loads (fixture_env [] None) ''hello'' = JSONDecodeError"
    "json_loads (fixture_env [] None) (replicate 4301 (CHR ''9'')) =
       Raised (ValueError ''Exceeds the limit (4300 digits) for integer string conversion'')"
    by (simp_all add: fixture_env_def fixture_json_loads_def)
  have h: "headers_dict [] = []"
    by (simp add: headers_dict_def)
  show ?thesis
    using
      send_request_body_dispatch [of "fixture_env [] None"
        "simple_request ''POST'' ''/x'' \<lparr>req_body := ''{}''\<rparr>" 0]
      send_request_body_dispatch [of "fixture_env [] None"
        "simple_request ''POST'' ''/x'' \<lparr>req_body := ''[1]''\<rparr>" 0]
      send_request_body_dispatch [of "fixture_env [] None"
        "simple_request ''POST'' ''/x'' \<lparr>req_body := ''hello''\<rparr>" 0]
      send_request_body_dispatch [of "fixture_env [] None"
        "simple_request ''POST'' ''/x'' \<lparr>req_body := replicate 4301 (CHR ''9'')\<rparr>" 0]
    by (simp add: simple_request_def l build_request_args_def call_kwargs_def h)
qed

section \<open>Truncation\<close>

lemma slice_to_nonneg: "0 \<le> m \<Longrightarrow> slice_to xs m = take (nat m) xs"
  by (simp add: slice_to_def)

lemma next_actions_parse: "next_actions (parse e m t s) = slice_to (try_parse_many e t) m"
  by (simp add: parse_def Let_def)

text \<open>
  C3 (amended). With a cap m that is not negative, the actions stored in next_actions are
  the first m parsed actions, in parse order (all of them when there are fewer), their
  number is the minimum of m and the number parsed, and the traffic and the goals are
  untouched.
\<close>

theorem parse_truncates:
  assumes "0 \<le> m"
  shows "next_actions (parse e m t s) = take (nat m) (try_parse_many e t)
    \<and> int (length (next_actions (parse e m t s))) = min (int (length (try_parse_many e t))) m
    \<and> traffic (parse e m t s) = traffic s \<and> goals (parse e m t s) = goals s"
  using assms by (auto simp: next_actions_parse slice_to_nonneg parse_def Let_def)

theorem parse_truncates_witness:
  "(0::int) \<le> 2
   \<and> next_actions (parse (fixture_env three_requests None) 2 ''completion'' (st (initial ''g'' 2 (0::nat)))) =
       [simple_request ''GET'' ''/a'', simple_request ''GET'' ''/b'']
   \<and> int (length (next_actions
        (parse (fixture_env three_requests None) 2 ''completion'' (st (initial ''g'' 2 (0::nat)))))) = min 3 2"
proof -
  have "(0::int) \<le> 2" by simp
  from parse_truncates [OF this, of "fixture_env three_requests None" "''completion''"
      "st (initial ''g'' 2 (0::nat))"]
  have "next_actions (parse (fixture_env three_requests None) 2 ''completion'' (st (initial ''g'' 2 (0::nat))))
      = take (nat 2) (try_parse_many (fixture_env three_requests None) ''completion'')"
    by (rule conjunct1)
  then show ?thesis by (simp add: parsed_three_requests)
qed

text \<open>
  With the cap -1 and three parsed actions the slice keeps two of them, not min(3, -1).
\<close>

theorem parse_negative_cap_counterexample:
  "length (try_parse_many (fixture_env three_requests None) ''completion'') = 3
   \<and> next_actions (parse (fixture_env three_requests None) (- 1) ''completion''
        (st (initial ''g'' (- 1) (0::nat)))) =
       [simple_request ''GET'' ''/a'', simple_request ''GET'' ''/b'']
   \<and> int (length (next_actions (parse (fixture_env three_requests None) (- 1) ''completion''
        (st (initial ''g'' (- 1) (0::nat)))))) \<noteq> min 3 (- 1)"
  by (simp add: next_actions_parse parsed_three_requests slice_to_def)

section \<open>The prompt\<close>

lemma join_Nil_iff: "(\<forall>x \<in> set xs. x \<noteq> []) \<Longrightarrow> join sep xs = [] \<longleftrightarrow> xs = []"
  by (induction sep xs rule: join.induct) auto

lemma traffic_line_not_Nil: "traffic_line p \<noteq> []"
  by (simp add: traffic_line_def)

lemma traffic_summary_refines:
  "(if join [NL] (map traffic_line tr) \<noteq> [] then join [NL] (map traffic_line tr)
    else ''No traffic yet'') = traffic_summary_spec tr"
proof -
  have "join [NL] (map traffic_line tr) = [] \<longleftrightarrow> map traffic_line tr = []"
    by (rule join_Nil_iff) (simp add: traffic_line_not_Nil)
  then show ?thesis by (simp add: traffic_summary_spec_def)
qed

lemma active_goal_refines:
  "(if gs \<noteq> [] then gs ! (length gs - 1) else ''Explore the app'') = active_goal_spec gs"
  by (simp add: active_goal_spec_def last_conv_nth)

text \<open>
  C8. The prompt is a function of the traffic and the goal stack alone. It holds, in this
  order, the traffic summary (one line METHOD path -> status per pair, in traffic order,
  joined by newlines, or the placeholder when there is no traffic), the active goal (the
  last entry of the stack, or the default when the stack is empty), the instructions and
  the rendered example request.
\<close>

theorem get_prompt_contents:
  "get_prompt e s =
     [NL] @ ''# Traffic'' @ [NL] @ traffic_summary_spec (traffic s) @ [NL]
     @ [NL] @ ''# Goal'' @ [NL] @ active_goal_spec (goals s) @ [NL]
     @ [NL] @ ''# Actions'' @ [NL] @ ''Use the format below to send new HTTP requests.'' @ [NL]
     @ [NL] @ to_pretty_xml e (example_request e) @ [NL]
   \<and> (traffic s = [] \<longrightarrow> traffic_summary_spec (traffic s) = ''No traffic yet'')
   \<and> (traffic s \<noteq> [] \<longrightarrow> traffic_summary_spec (traffic s) =
        join [NL] (map (\<lambda>(r, res). req_method r @ '' '' @ req_path r @ '' -> ''
                          @ str_int (status_code res)) (traffic s)))
   \<and> (goals s = [] \<longrightarrow> active_goal_spec (goals s) = ''Explore the app'')
   \<and> (goals s \<noteq> [] \<longrightarrow> active_goal_spec (goals s) = last (goals s))
   \<and> (traffic s = traffic s' \<and> goals s = goals s' \<longrightarrow> get_prompt e s = get_prompt e s')"
proof -
  have 1: "get_prompt e s =
     [NL] @ ''# Traffic'' @ [NL] @ traffic_summary_spec (traffic s) @ [NL]
     @ [NL] @ ''# Goal'' @ [NL] @ active_goal_spec (goals s) @ [NL]
     @ [NL] @ ''# Actions'' @ [NL] @ ''Use the format below to send new HTTP requests.'' @ [NL]
     @ [NL] @ to_pretty_xml e (example_request e) @ [NL]"
    unfolding get_prompt_def Let_def traffic_summary_refines active_goal_refines xml_example_def
    by (rule refl)
  have 2: "traffic_line = (\<lambda>(r, res). req_method r @ '' '' @ req_path r @ '' -> ''
                          @ str_int (status_code res))"
    by (simp add: fun_eq_iff traffic_line_def)
  have 3: "traffic s = traffic s' \<and> goals s = goals s' \<longrightarrow> get_prompt e s = get_prompt e s'"
    by (simp add: get_prompt_def)
  show ?thesis
    using 3 unfolding 1 by (simp add: traffic_summary_spec_def active_goal_spec_def 2)
qed

lemma str_int_200: "str_int 200 = ''200''" "str_int 404 = ''404''"
  by code_simp+

theorem get_prompt_contents_witness:
  "get_prompt (fixture_env [] None) traffic_state =
     ''\<newline># Traffic\<newline>GET /a -> 200\<newline>POST /c -> 404\<newline>\<newline># Goal\<newline>Find the login form\<newline>\<newline># Actions\<newline>Use the format below to send new HTTP requests.\<newline>\<newline><request/>\<newline>''
   \<and> get_prompt (fixture_env [] None) (traffic_state\<lparr>traffic := [], goals := []\<rparr>) =
     ''\<newline># Traffic\<newline>No traffic yet\<newline>\<newline># Goal\<newline>Explore the app\<newline>\<newline># Actions\<newline>Use the format below to send new HTTP requests.\<newline>\<newline><request/>\<newline>''"
  using get_prompt_contents [of "fixture_env [] None" traffic_state traffic_state]
    get_prompt_contents [of "fixture_env [] None" "traffic_state\<lparr>traffic := [], goals := []\<rparr>"
      traffic_state]
  by (simp add: traffic_state_def fixture_env_def simple_request_def ok_response_def
      str_int_200 NL_def)

section \<open>Running the queued actions\<close>

lemma Request_run_cases:
  obtains (raises) x w' where
      "send_request e (world s) r = (Inl x, w')"
      "Request_run e r s = (Inl x, s\<lparr>world := w'\<rparr>)"
  | (returns) res w' where
      "send_request e (world s) r = (Inr res, w')"
      "Request_run e r s =
         (Inr (response_to_pretty_xml e res),
          s\<lparr>world := w', logged := logged s @ [success_event (r, res)],
            st := (st s)\<lparr>traffic := traffic (st s) @ [(r, res)]\<rparr>\<rparr>)"
proof (cases "send_request e (world s) r")
  case (Pair a w')
  show ?thesis
  proof (cases a)
    case (Inl x)
    with Pair show ?thesis
      by (intro raises [of x w']) (simp_all add: Request_run_def)
  next
    case (Inr res)
    with Pair show ?thesis
      by (intro returns [of res w']) (simp_all add: Request_run_def success_event_def)
  qed
qed

lemma run_actions_effect:
  assumes "run_actions e as s = (res, s')"
  shows "\<exists>new. traffic (st s') = traffic (st s) @ new
     \<and> logged s' = logged s @ map success_event new
     \<and> map fst new = take (length new) as
     \<and> next_actions (st s') = next_actions (st s)
     \<and> goals (st s') = goals (st s)
     \<and> max_actions (st s') = max_actions (st s)
     \<and> (res = Inr () \<longrightarrow> length new = length as)
     \<and> (\<forall>x. res = Inl x \<longrightarrow> length new < length as)"
  using assms
proof (induction as arbitrary: s)
  case Nil
  then show ?case by (intro exI [of _ "[]"]) auto
next
  case (Cons a as)
  show ?case
  proof (cases rule: Request_run_cases [of e s a])
    case (raises x w')
    with Cons.prems have "res = Inl x" "s' = s\<lparr>world := w'\<rparr>" by simp_all
    then show ?thesis by (intro exI [of _ "[]"]) simp
  next
    case (returns r w')
    let ?s1 = "s\<lparr>world := w', logged := logged s @ [success_event (a, r)],
            st := (st s)\<lparr>traffic := traffic (st s) @ [(a, r)]\<rparr>\<rparr>"
    from returns Cons.prems have "run_actions e as ?s1 = (res, s')" by simp
    from Cons.IH [OF this] obtain new where
      "traffic (st s') = traffic (st ?s1) @ new"
      "logged s' = logged ?s1 @ map success_event new"
      "map fst new = take (length new) as"
      "next_actions (st s') = next_actions (st ?s1)"
      "goals (st s') = goals (st ?s1)"
      "max_actions (st s') = max_actions (st ?s1)"
      "res = Inr () \<longrightarrow> length new = length as"
      "\<forall>x. res = Inl x \<longrightarrow> length new < length as"
      by blast
    then show ?thesis by (intro exI [of _ "(a, r) # new"]) simp
  qed
qed

lemma step_effect:
  assumes "step e s = (res, s')"
  shows "\<exists>new. traffic (st s') = traffic (st s) @ new
     \<and> logged s' = logged s @ Running (length (next_actions (st s))) # map success_event new
     \<and> map fst new = take (length new) (next_actions (st s))
     \<and> goals (st s') = goals (st s)
     \<and> max_actions (st s') = max_actions (st s)
     \<and> (res = Inr () \<longrightarrow> length new = length (next_actions (st s)) \<and> next_actions (st s') = [])
     \<and> (\<forall>x. res = Inl x \<longrightarrow>
           length new < length (next_actions (st s)) \<and> next_actions (st s') = next_actions (st s))"
proof -
  let ?s1 = "s\<lparr>logged := logged s @ [Running (length (next_actions (st s)))]\<rparr>"
  obtain r1 s1' where run: "run_actions e (next_actions (st s)) ?s1 = (r1, s1')"
    by (cases "run_actions e (next_actions (st s)) ?s1") blast
  from run_actions_effect [OF run] obtain new where new:
      "traffic (st s1') = traffic (st ?s1) @ new"
      "logged s1' = logged ?s1 @ map success_event new"
      "map fst new = take (length new) (next_actions (st s))"
      "next_actions (st s1') = next_actions (st ?s1)"
      "goals (st s1') = goals (st ?s1)"
      "max_actions (st s1') = max_actions (st ?s1)"
      "r1 = Inr () \<longrightarrow> length new = length (next_actions (st s))"
      "\<forall>x. r1 = Inl x \<longrightarrow> length new < length (next_actions (st s))"
    by blast
  show ?thesis
  proof (cases r1)
    case (Inl x)
    with run assms have "res = Inl x" "s' = s1'" by (simp_all add: step_def Let_def)
    with new Inl show ?thesis by (intro exI [of _ new]) simp
  next
    case (Inr u)
    with run assms have "res = Inr ()" "s' = s1'\<lparr>st := (st s1')\<lparr>next_actions := []\<rparr>\<rparr>"
      by (simp_all add: step_def Let_def)
    with new Inr show ?thesis by (intro exI [of _ new]) simp
  qed
qed

lemma run_actions_append:
  "run_actions e (as @ bs) s =
     (case run_actions e as s of
        (Inl x, s') \<Rightarrow> (Inl x, s')
      | (Inr u, s') \<Rightarrow> run_actions e bs s')"
  by (induction as arbitrary: s) (auto split: prod.splits sum.splits)

section \<open>Reading the log\<close>

lemma success_event_kind [simp]:
  "is_success (success_event p)" "\<not> is_iteration (success_event p)"
  by (simp_all add: success_event_def)

lemma filter_success_events [simp]:
  "filter is_success (map success_event new) = map success_event new"
  by (induction new) simp_all

lemma running_counts_success_events [simp]: "running_counts (map success_event new) = []"
  by (induction new) (simp_all add: success_event_def)

lemma running_counts_append:
  "running_counts (a @ b) = running_counts a @ running_counts b"
  by (induction a rule: running_counts.induct) simp_all

lemma takeWhile_round:
  assumes "\<forall>ev \<in> set a. \<not> is_iteration ev" and "b = [] \<or> is_iteration (hd b)"
  shows "takeWhile (\<lambda>ev. \<not> is_iteration ev) (a @ b) = a"
proof -
  from assms(2) have "takeWhile (\<lambda>ev. \<not> is_iteration ev) b = []"
    by (cases b) auto
  with assms(1) show ?thesis by simp
qed

lemma per_round_skip:
  assumes "\<forall>ev \<in> set a. \<not> is_iteration ev"
  shows "per_round (a @ b) = per_round b"
  using assms
proof (induction a)
  case Nil
  show ?case by simp
next
  case (Cons ev a)
  then show ?case by (cases ev) simp_all
qed

lemma per_round_first:
  assumes "\<forall>ev \<in> set a. \<not> is_iteration ev" and "b = [] \<or> is_iteration (hd b)"
  shows "per_round (Iteration i n # a @ b) = length (filter is_success a) # per_round b"
proof -
  have 1: "takeWhile (\<lambda>ev. \<not> is_iteration ev) (a @ b) = a"
    using assms by (rule takeWhile_round)
  have 2: "per_round (a @ b) = per_round b"
    using assms(1) by (rule per_round_skip)
  show ?thesis by (simp only: per_round.simps 1 2)
qed

section \<open>One round and the loop\<close>

lemma parse_frame:
  "traffic (parse e m t s) = traffic s" "goals (parse e m t s) = goals s"
  "max_actions (parse e m t s) = max_actions s"
  by (simp_all add: parse_def Let_def)

lemma loop_body_effect:
  assumes "loop_body e n m i s = (res, s')"
  shows "\<exists>new evs. traffic (st s') = traffic (st s) @ new
     \<and> logged s' = logged s @ Iteration (int i + 1) n # evs
     \<and> (\<forall>ev \<in> set evs. \<not> is_iteration ev)
     \<and> filter is_success evs = map success_event new
     \<and> goals (st s') = goals (st s)
     \<and> max_actions (st s') = max_actions (st s)
     \<and> (res = Inr () \<longrightarrow> running_counts evs = [length new])"
proof -
  let ?s1 = "s\<lparr>logged := logged s @ [Iteration (int i + 1) n]\<rparr>"
  obtain g w' where gen: "generate e (world s) (get_prompt e (st s)) = (g, w')"
    by (cases "generate e (world s) (get_prompt e (st s))") blast
  show ?thesis
  proof (cases g)
    case (Inl x)
    with gen assms have "res = Inl x" "s' = ?s1\<lparr>world := w'\<rparr>"
      by (simp_all add: loop_body_def Let_def)
    then show ?thesis
      by (intro exI [of _ "[]"]) simp
  next
    case (Inr t)
    let ?s2 = "?s1\<lparr>world := w', st := parse e m t (st s)\<rparr>"
    from Inr gen assms have "step e ?s2 = (res, s')"
      by (simp add: loop_body_def Let_def)
    from step_effect [OF this] obtain new where new:
      "traffic (st s') = traffic (st ?s2) @ new"
      "logged s' = logged ?s2 @ Running (length (next_actions (st ?s2))) # map success_event new"
      "goals (st s') = goals (st ?s2)"
      "max_actions (st s') = max_actions (st ?s2)"
      "res = Inr () \<longrightarrow> length new = length (next_actions (st ?s2))"
      by blast
    show ?thesis
      using new
      by (intro exI [of _ new]
          exI [of _ "Running (length (next_actions (st ?s2))) # map success_event new"])
        (simp add: parse_frame)
  qed
qed

lemma rounds_effect:
  assumes "rounds e n m is s = (res, s')"
  shows "\<exists>new evs. traffic (st s') = traffic (st s) @ new
     \<and> logged s' = logged s @ evs
     \<and> filter is_success evs = map success_event new
     \<and> (evs = [] \<or> is_iteration (hd evs))
     \<and> sum_list (per_round evs) = length new
     \<and> goals (st s') = goals (st s)
     \<and> max_actions (st s') = max_actions (st s)
     \<and> (res = Inr () \<longrightarrow>
           filter is_iteration evs = map (\<lambda>i. Iteration (int i + 1) n) is
           \<and> sum_list (running_counts evs) = length new
           \<and> length (running_counts evs) = length is)"
  using assms
proof (induction "is" arbitrary: s)
  case Nil
  then show ?case by (intro exI [of _ "[]"]) auto
next
  case (Cons i "is")
  obtain r1 s1 where body: "loop_body e n m i s = (r1, s1)"
    by (cases "loop_body e n m i s") blast
  from loop_body_effect [OF body] obtain new1 evs1 where one:
    "traffic (st s1) = traffic (st s) @ new1"
    "logged s1 = logged s @ Iteration (int i + 1) n # evs1"
    "\<forall>ev \<in> set evs1. \<not> is_iteration ev"
    "filter is_success evs1 = map success_event new1"
    "goals (st s1) = goals (st s)"
    "max_actions (st s1) = max_actions (st s)"
    "r1 = Inr () \<longrightarrow> running_counts evs1 = [length new1]"
    by blast
  from one(4) have len1: "length (filter is_success evs1) = length new1"
    by simp
  show ?case
  proof (cases r1)
    case (Inl x)
    with body Cons.prems have "res = Inl x" "s' = s1" by simp_all
    moreover have "per_round (Iteration (int i + 1) n # evs1 @ []) = length new1 # per_round []"
      using per_round_first [of evs1 "[]" "int i + 1" n] one(3) len1 by simp
    ultimately show ?thesis
      using one
      by (intro exI [of _ new1] exI [of _ "Iteration (int i + 1) n # evs1"]) simp
  next
    case (Inr u)
    with body Cons.prems have rest: "rounds e n m is s1 = (res, s')" by simp
    from Cons.IH [OF rest] obtain new2 evs2 where two:
      "traffic (st s') = traffic (st s1) @ new2"
      "logged s' = logged s1 @ evs2"
      "filter is_success evs2 = map success_event new2"
      "evs2 = [] \<or> is_iteration (hd evs2)"
      "sum_list (per_round evs2) = length new2"
      "goals (st s') = goals (st s1)"
      "max_actions (st s') = max_actions (st s1)"
      "res = Inr () \<longrightarrow>
           filter is_iteration evs2 = map (\<lambda>i. Iteration (int i + 1) n) is
           \<and> sum_list (running_counts evs2) = length new2
           \<and> length (running_counts evs2) = length is"
      by blast
    have pr: "per_round (Iteration (int i + 1) n # evs1 @ evs2) = length new1 # per_round evs2"
      using per_round_first [of evs1 evs2 "int i + 1" n] one(3) two(4) len1 by simp
    have noit: "filter is_iteration evs1 = []"
      using one(3) by (simp add: filter_empty_conv)
    from Inr one(7) have rc: "running_counts evs1 = [length new1]" by simp
    show ?thesis
      using one(1,2,4,5,6) two pr noit rc
      by (intro exI [of _ "new1 @ new2"] exI [of _ "Iteration (int i + 1) n # evs1 @ evs2"])
        (simp add: running_counts_append)
  qed
qed

section \<open>Runs in the concrete environments\<close>

lemma fixture_send_request:
  "send_request (fixture_env bl d) w (simple_request mt p) =
     (if Some p = d then (Inl (TransportError ''ConnectError''), Suc w)
      else (Inr ok_response, Suc w))"
  by (simp add: send_request_def fixture_env_def fixture_send_def build_request_args_def
      call_kwargs_def simple_request_def Response_def ok_response_def strip_ok
      fixture_json_loads_def)

lemma fixture_Request_run:
  "Request_run (fixture_env bl d) (simple_request mt p) s =
     (if Some p = d then (Inl (TransportError ''ConnectError''), s\<lparr>world := Suc (world s)\<rparr>)
      else (Inr ''<response/>'',
            s\<lparr>world := Suc (world s),
              logged := logged s @ [Success mt p 200],
              st := (st s)\<lparr>traffic := traffic (st s) @ [(simple_request mt p, ok_response)]\<rparr>\<rparr>))"
  by (simp add: Request_run_def fixture_send_request)
    (simp add: fixture_env_def simple_request_def ok_response_def)

lemma fixture_generate:
  "generate (fixture_env bl d) w p = (Inr ''completion'', Suc w)"
  by (simp add: fixture_env_def)

lemma upt_two: "[0 ..< 2] = [0, 1]"
  by (simp add: upt_rec)

lemma fixture_two_rounds:
  "agent_loop (fixture_env three_requests None) 2 2 (initial ''g'' 2 0) =
     (Inr (),
      \<lparr>st = \<lparr>max_actions = 2, goals = [''g''], next_actions = [],
             traffic = [(simple_request ''GET'' ''/a'', ok_response),
                        (simple_request ''GET'' ''/b'', ok_response),
                        (simple_request ''GET'' ''/a'', ok_response),
                        (simple_request ''GET'' ''/b'', ok_response)]\<rparr>,
       world = 6,
       logged = [Iteration 1 2, Running 2, Success ''GET'' ''/a'' 200, Success ''GET'' ''/b'' 200,
                 Iteration 2 2, Running 2, Success ''GET'' ''/a'' 200, Success ''GET'' ''/b'' 200]\<rparr>)"
  by (simp add: agent_loop_def upt_two loop_body_def fixture_generate step_def next_actions_parse
      parsed_three_requests slice_to_def fixture_Request_run initial_def Let_def parse_def)


section \<open>Traffic\<close>

lemma new_traffic_append:
  "traffic (st s') = traffic (st s) @ new \<Longrightarrow> new_traffic s s' = new"
  by (simp add: new_traffic_def)

lemma new_events_append: "logged s' = logged s @ evs \<Longrightarrow> new_events s s' = evs"
  by (simp add: new_events_def)

text \<open>
  C4. The traffic after a run of the agent loop is the traffic before it followed by what
  the run added, whether the loop returns or an exception leaves it: nothing is removed
  or reordered. The pairs added are, in order, those of the actions logged as executed,
  one pair for each, and their number is the sum over the rounds of the number of actions
  executed in the round. An action that returns adds exactly its own pair at the end.
\<close>

theorem traffic_append_only:
  "traffic (st (snd (agent_loop e n m s))) =
      traffic (st s) @ new_traffic s (snd (agent_loop e n m s))
   \<and> logged (snd (agent_loop e n m s)) = logged s @ new_events s (snd (agent_loop e n m s))
   \<and> map success_event (new_traffic s (snd (agent_loop e n m s))) =
       filter is_success (new_events s (snd (agent_loop e n m s)))
   \<and> length (traffic (st (snd (agent_loop e n m s)))) =
       length (traffic (st s)) + sum_list (per_round (new_events s (snd (agent_loop e n m s))))
   \<and> (\<forall>v s2. Request_run e a s1 = (Inr v, s2) \<longrightarrow>
        (\<exists>res. traffic (st s2) = traffic (st s1) @ [(a, res)]))
   \<and> (\<forall>x s2. Request_run e a s1 = (Inl x, s2) \<longrightarrow> traffic (st s2) = traffic (st s1))"
proof -
  obtain res s' where run: "agent_loop e n m s = (res, s')"
    by (cases "agent_loop e n m s") blast
  then have "rounds e n m [0 ..< nat n] s = (res, s')"
    by (simp add: agent_loop_def)
  from rounds_effect [OF this] obtain new evs where eff:
    "traffic (st s') = traffic (st s) @ new"
    "logged s' = logged s @ evs"
    "filter is_success evs = map success_event new"
    "sum_list (per_round evs) = length new"
    by blast
  have nt: "new_traffic s s' = new" using eff(1) by (rule new_traffic_append)
  have ne: "new_events s s' = evs" using eff(2) by (rule new_events_append)
  have loop: "traffic (st s') = traffic (st s) @ new_traffic s s'
     \<and> logged s' = logged s @ new_events s s'
     \<and> map success_event (new_traffic s s') = filter is_success (new_events s s')
     \<and> length (traffic (st s')) = length (traffic (st s)) + sum_list (per_round (new_events s s'))"
    using eff by (simp add: nt ne)
  have one: "(\<forall>v s2. Request_run e a s1 = (Inr v, s2) \<longrightarrow>
        (\<exists>res. traffic (st s2) = traffic (st s1) @ [(a, res)]))
     \<and> (\<forall>x s2. Request_run e a s1 = (Inl x, s2) \<longrightarrow> traffic (st s2) = traffic (st s1))"
    by (cases rule: Request_run_cases [of e s1 a]) auto
  from loop one show ?thesis unfolding run snd_conv by blast
qed

theorem traffic_append_only_witness:
  "map fst (traffic (st (snd (agent_loop (fixture_env three_requests None) 2 2 (initial ''g'' 2 0))))) =
      [simple_request ''GET'' ''/a'', simple_request ''GET'' ''/b'',
       simple_request ''GET'' ''/a'', simple_request ''GET'' ''/b'']
   \<and> per_round (new_events (initial ''g'' 2 0)
        (snd (agent_loop (fixture_env three_requests None) 2 2 (initial ''g'' 2 0)))) = [2, 2]
   \<and> length (traffic (st (snd (agent_loop (fixture_env three_requests None) 2 2
        (initial ''g'' 2 0))))) = 0 + sum_list [2, 2]"
proof -
  have pr: "per_round (new_events (initial ''g'' 2 0)
        (snd (agent_loop (fixture_env three_requests None) 2 2 (initial ''g'' 2 0)))) = [2, 2]"
    unfolding fixture_two_rounds by (simp add: new_events_def initial_def)
  have tr: "traffic (st (initial ''g'' 2 (0::nat))) = []"
    by (simp add: initial_def)
  from traffic_append_only [of "fixture_env three_requests None" 2 2 "initial ''g'' 2 0"
      "simple_request ''GET'' ''/a''" "initial ''g'' 2 0"]
  have "length (traffic (st (snd (agent_loop (fixture_env three_requests None) 2 2
        (initial ''g'' 2 0))))) =
      length (traffic (st (initial ''g'' 2 (0::nat))))
      + sum_list (per_round (new_events (initial ''g'' 2 0)
          (snd (agent_loop (fixture_env three_requests None) 2 2 (initial ''g'' 2 0)))))"
    by blast
  then have "length (traffic (st (snd (agent_loop (fixture_env three_requests None) 2 2
        (initial ''g'' 2 0))))) = 0 + sum_list [2, 2]"
    unfolding pr tr by simp
  then show ?thesis
    using pr by (simp add: fixture_two_rounds)
qed

section \<open>The number of rounds\<close>








section \<open>A round with nothing to do\<close>

lemma slice_to_Nil: "slice_to [] m = []"
  by (simp add: slice_to_def)

text \<open>
  C7. For every completion text the parse step stores the truncated list of parsed
  actions in next_actions and touches neither the traffic nor the goals; when the
  generator returns a text in which no block is found, the round ends normally with an
  empty queue, the traffic unchanged and no HTTP call made (the world is the one the
  generator left), and the loop goes on with the remaining rounds.
\<close>

theorem empty_parse_round:
  "next_actions (parse e m t0 s0) = slice_to (try_parse_many e t0) m
   \<and> traffic (parse e m t0 s0) = traffic s0
   \<and> goals (parse e m t0 s0) = goals s0
   \<and> (generate e (world s) (get_prompt e (st s)) = (Inr t, w') \<and> try_parse_many e t = [] \<longrightarrow>
        next_actions (parse e m t (st s)) = []
        \<and> loop_body e n m i s =
            (Inr (), s\<lparr>logged := logged s @ [Iteration (int i + 1) n, Running 0],
                      world := w', st := (st s)\<lparr>next_actions := []\<rparr>\<rparr>)
        \<and> traffic (st (snd (loop_body e n m i s))) = traffic (st s)
        \<and> rounds e n m (i # is) s =
            rounds e n m is (s\<lparr>logged := logged s @ [Iteration (int i + 1) n, Running 0],
                      world := w', st := (st s)\<lparr>next_actions := []\<rparr>\<rparr>))"
proof -
  have 1: "next_actions (parse e m t0 s0) = slice_to (try_parse_many e t0) m
     \<and> traffic (parse e m t0 s0) = traffic s0 \<and> goals (parse e m t0 s0) = goals s0"
    by (simp add: next_actions_parse parse_frame)
  have 2: "next_actions (parse e m t (st s)) = []
        \<and> loop_body e n m i s =
            (Inr (), s\<lparr>logged := logged s @ [Iteration (int i + 1) n, Running 0],
                      world := w', st := (st s)\<lparr>next_actions := []\<rparr>\<rparr>)
        \<and> traffic (st (snd (loop_body e n m i s))) = traffic (st s)
        \<and> rounds e n m (i # is) s =
            rounds e n m is (s\<lparr>logged := logged s @ [Iteration (int i + 1) n, Running 0],
                      world := w', st := (st s)\<lparr>next_actions := []\<rparr>\<rparr>)"
    if gen: "generate e (world s) (get_prompt e (st s)) = (Inr t, w')"
      and empty: "try_parse_many e t = []"
  proof -
    have p: "parse e m t (st s) = (st s)\<lparr>next_actions := []\<rparr>"
      using empty by (simp add: parse_def Let_def slice_to_Nil)
    have body: "loop_body e n m i s =
         (Inr (), s\<lparr>logged := logged s @ [Iteration (int i + 1) n, Running 0],
                   world := w', st := (st s)\<lparr>next_actions := []\<rparr>\<rparr>)"
      using gen by (simp add: loop_body_def Let_def p step_def)
    show ?thesis
      using empty by (simp add: body next_actions_parse slice_to_Nil)
  qed
  from 1 2 show ?thesis by blast
qed

theorem empty_parse_round_witness:
  "generate (fixture_env [] None) (world (initial ''g'' 2 0))
      (get_prompt (fixture_env [] None) (st (initial ''g'' 2 0))) = (Inr ''completion'', 1)
   \<and> try_parse_many (fixture_env [] None) ''completion'' = []
   \<and> loop_body (fixture_env [] None) 2 2 0 (initial ''g'' 2 0) =
       (Inr (), \<lparr>st = \<lparr>max_actions = 2, goals = [''g''], next_actions = [], traffic = []\<rparr>,
                 world = 1, logged = [Iteration 1 2, Running 0]\<rparr>)
   \<and> rounds (fixture_env [] None) 2 2 [0, 1] (initial ''g'' 2 0) =
       rounds (fixture_env [] None) 2 2 [1]
         \<lparr>st = \<lparr>max_actions = 2, goals = [''g''], next_actions = [], traffic = []\<rparr>,
          world = 1, logged = [Iteration 1 2, Running 0]\<rparr>"
proof -
  have g: "generate (fixture_env [] None) (world (initial ''g'' 2 0))
      (get_prompt (fixture_env [] None) (st (initial ''g'' 2 0))) = (Inr ''completion'', 1)"
    by (simp add: fixture_generate initial_def)
  have p: "try_parse_many (fixture_env [] None) ''completion'' = []"
    by (simp add: fixture_env_def)
  note th = empty_parse_round [of "fixture_env [] None" 2 "''completion''"
      "st (initial ''g'' 2 (0::nat))" "initial ''g'' 2 0" "''completion''" 1 2 0 "[1]"]
  note r = th [THEN conjunct2, THEN conjunct2, THEN conjunct2, THEN mp, OF conjI [OF g p]]
  have "loop_body (fixture_env [] None) 2 2 0 (initial ''g'' 2 0) =
       (Inr (), \<lparr>st = \<lparr>max_actions = 2, goals = [''g''], next_actions = [], traffic = []\<rparr>,
                 world = 1, logged = [Iteration 1 2, Running 0]\<rparr>)"
    using r [THEN conjunct2, THEN conjunct1] by (simp add: initial_def)
  moreover have "rounds (fixture_env [] None) 2 2 [0, 1] (initial ''g'' 2 0) =
       rounds (fixture_env [] None) 2 2 [1]
         \<lparr>st = \<lparr>max_actions = 2, goals = [''g''], next_actions = [], traffic = []\<rparr>,
          world = 1, logged = [Iteration 1 2, Running 0]\<rparr>"
    using r [THEN conjunct2, THEN conjunct2, THEN conjunct2] by (simp add: initial_def)
  ultimately show ?thesis using g p by blast
qed

section \<open>A send that raises\<close>

text \<open>
  C10. When the queue is pre, a, post, the actions of pre ran without raising, and the
  send of a raises, the exception leaves step: the traffic holds the pairs of pre after
  what it held before and nothing for a or post, next_actions still holds the whole
  queue, and the world is the one the failing send left, so no action of post was sent.
\<close>

theorem step_send_raises:
  assumes "next_actions (st s) = pre @ a # post"
    and "run_actions e pre (s\<lparr>logged := logged s @ [Running (length (next_actions (st s)))]\<rparr>)
           = (Inr (), s2)"
    and "send_request e (world s2) a = (Inl x, w')"
  shows "step e s = (Inl x, s2\<lparr>world := w'\<rparr>)
     \<and> next_actions (st (snd (step e s))) = pre @ a # post
     \<and> traffic (st (snd (step e s))) = traffic (st s) @ new_traffic s (snd (step e s))
     \<and> map fst (new_traffic s (snd (step e s))) = pre
     \<and> world (snd (step e s)) = w'"
proof -
  let ?s1 = "s\<lparr>logged := logged s @ [Running (length (next_actions (st s)))]\<rparr>"
  have a: "Request_run e a s2 = (Inl x, s2\<lparr>world := w'\<rparr>)"
    using assms(3) by (simp add: Request_run_def)
  have "run_actions e (pre @ a # post) ?s1 = (Inl x, s2\<lparr>world := w'\<rparr>)"
    by (simp add: run_actions_append assms(2) a)
  then have stp: "step e s = (Inl x, s2\<lparr>world := w'\<rparr>)"
    using assms(1) by (simp add: step_def Let_def)
  from run_actions_effect [OF assms(2)] obtain new where new:
    "traffic (st s2) = traffic (st ?s1) @ new"
    "map fst new = take (length new) pre"
    "next_actions (st s2) = next_actions (st ?s1)"
    "length new = length pre"
    by auto
  from new(1) have "new_traffic s (s2\<lparr>world := w'\<rparr>) = new"
    by (intro new_traffic_append) simp
  with new assms(1) show ?thesis
    by (simp add: stp)
qed

theorem step_send_raises_witness:
  "step (fixture_env [] (Some ''/b'')) queued_state =
     (Inl (TransportError ''ConnectError''),
      \<lparr>st = \<lparr>max_actions = 3, goals = [''g''],
             next_actions = [simple_request ''GET'' ''/a'', simple_request ''GET'' ''/b'',
                             simple_request ''POST'' ''/c''],
             traffic = [(simple_request ''GET'' ''/'', ok_response),
                        (simple_request ''GET'' ''/a'', ok_response)]\<rparr>,
       world = 7, logged = [Running 3, Success ''GET'' ''/a'' 200]\<rparr>)
   \<and> map fst (new_traffic queued_state (snd (step (fixture_env [] (Some ''/b'')) queued_state))) =
       [simple_request ''GET'' ''/a'']"
proof -
  let ?s2 = "\<lparr>st = \<lparr>max_actions = 3, goals = [''g''],
             next_actions = [simple_request ''GET'' ''/a'', simple_request ''GET'' ''/b'',
                             simple_request ''POST'' ''/c''],
             traffic = [(simple_request ''GET'' ''/'', ok_response),
                        (simple_request ''GET'' ''/a'', ok_response)]\<rparr>,
       world = 6, logged = [Running 3, Success ''GET'' ''/a'' 200]\<rparr>"
  have q: "next_actions (st queued_state) =
      [simple_request ''GET'' ''/a''] @ simple_request ''GET'' ''/b'' # [simple_request ''POST'' ''/c'']"
    by (simp add: queued_state_def)
  have r: "run_actions (fixture_env [] (Some ''/b'')) [simple_request ''GET'' ''/a'']
      (queued_state\<lparr>logged := logged queued_state
          @ [Running (length (next_actions (st queued_state)))]\<rparr>) = (Inr (), ?s2)"
    by (simp add: fixture_Request_run queued_state_def)
  have f: "send_request (fixture_env [] (Some ''/b'')) (world ?s2) (simple_request ''GET'' ''/b'') =
      (Inl (TransportError ''ConnectError''), 7)"
    by (simp add: fixture_send_request)
  note th = step_send_raises [OF q r f]
  from th have 1: "step (fixture_env [] (Some ''/b'')) queued_state =
     (Inl (TransportError ''ConnectError''), ?s2\<lparr>world := 7\<rparr>)"
    by (rule conjunct1)
  from th have 2: "map fst (new_traffic queued_state
      (snd (step (fixture_env [] (Some ''/b'')) queued_state))) = [simple_request ''GET'' ''/a'']"
    by blast
  show ?thesis
    by (rule conjI) (simp add: 1, rule 2)
qed

section \<open>Further properties\<close>

text \<open>
  The example instance that xml_example renders, with validators that leave its five
  literals as they are written (as the ASCII ones do).
\<close>

theorem example_request_fields:
  "example_request (fixture_env requests down) =
     \<lparr>req_method = ''GET'', req_path = ''/$path'',
      req_headers = [\<lparr>h_name = ''X-Header'', h_value = ''my-value''\<rparr>],
      req_url_params = [\<lparr>p_name = ''name'', p_value = ''test-param''\<rparr>],
      req_body = ''$body''\<rparr>"
proof -
  have "ascii_strip ''my-value'' = ''my-value''" "ascii_strip ''test-param'' = ''test-param''"
    "ascii_strip ''$body'' = ''$body''"
    by (simp_all add: ascii_strip_def is_space_def)
  then show ?thesis
    by (simp add: example_request_def Request_def Header_def Parameter_def fixture_env_def
        upper_GET)
qed

text \<open>
  A step that returns has executed every queued action, in queue order, and has cleared
  the queue.
\<close>

theorem step_runs_queue_in_order:
  "fst (step e s) = Inr () \<longrightarrow>
     next_actions (st (snd (step e s))) = []
     \<and> map fst (new_traffic s (snd (step e s))) = next_actions (st s)
     \<and> traffic (st (snd (step e s))) = traffic (st s) @ new_traffic s (snd (step e s))"
proof
  assume ok: "fst (step e s) = Inr ()"
  obtain s' where stp: "step e s = (Inr (), s')"
    using ok by (cases "step e s") simp
  from step_effect [OF stp] obtain new where new:
    "traffic (st s') = traffic (st s) @ new"
    "map fst new = take (length new) (next_actions (st s))"
    "length new = length (next_actions (st s))"
    "next_actions (st s') = []"
    by auto
  from new(1) have "new_traffic s s' = new" by (rule new_traffic_append)
  with new show "next_actions (st (snd (step e s))) = []
     \<and> map fst (new_traffic s (snd (step e s))) = next_actions (st s)
     \<and> traffic (st (snd (step e s))) = traffic (st s) @ new_traffic s (snd (step e s))"
    by (simp add: stp)
qed

theorem step_runs_queue_in_order_witness:
  "fst (step (fixture_env [] None) queued_state) = Inr ()
   \<and> next_actions (st (snd (step (fixture_env [] None) queued_state))) = []
   \<and> map fst (new_traffic queued_state (snd (step (fixture_env [] None) queued_state))) =
       [simple_request ''GET'' ''/a'', simple_request ''GET'' ''/b'', simple_request ''POST'' ''/c'']"
proof -
  have ok: "fst (step (fixture_env [] None) queued_state) = Inr ()"
    by (simp add: step_def queued_state_def fixture_Request_run)
  from step_runs_queue_in_order [of "fixture_env [] None" queued_state] ok
  show ?thesis by (simp add: queued_state_def)
qed

text \<open>
  One round with the cap 2 and a completion holding the three actions GET /a, GET /b and
  POST /c: the first two are executed, in that order, and the loop returns.
\<close>

theorem one_round_of_three_actions:
  "fst (agent_loop (fixture_env three_requests None) 1 2 (initial ''g'' 2 0)) = Inr ()
   \<and> traffic (st (snd (agent_loop (fixture_env three_requests None) 1 2 (initial ''g'' 2 0)))) =
       [(simple_request ''GET'' ''/a'', ok_response), (simple_request ''GET'' ''/b'', ok_response)]
   \<and> logged (snd (agent_loop (fixture_env three_requests None) 1 2 (initial ''g'' 2 0))) =
       [Iteration 1 1, Running 2, Success ''GET'' ''/a'' 200, Success ''GET'' ''/b'' 200]"
  by (simp add: agent_loop_def loop_body_def fixture_generate step_def next_actions_parse
      parsed_three_requests slice_to_def fixture_Request_run initial_def Let_def parse_def)

end
